theory Spec2Isabelle
  imports Main
begin

section \<open>Values: decoded JSON\<close>

text \<open>
  Everything the module handles is a decoded JSON document: the inbound payload
  (\<^verbatim>\<open>request.get_json()\<close>) and the bodies of the upstream responses
  (\<^verbatim>\<open>response.json()\<close>). A Python \<^verbatim>\<open>dict\<close> keeps its keys in insertion order
  and \<^verbatim>\<open>list(d.keys())\<close>, \<^verbatim>\<open>d.values()\<close> follow that order, so an object is an
  association list; a dict holds each key once, and \<open>map_of\<close> reads it. Numbers are
  the integers; a floating point number is not a value of this model. \<^verbatim>\<open>False\<close>,
  which \<^verbatim>\<open>get_gist\<close> returns on failure, is \<open>JBool False\<close>.
\<close>

datatype json =
    JNull
  | JBool bool
  | JInt int
  | JStr string
  | JList "json list"
  | JObj "(string \<times> json) list"

text \<open>Truth value of a Python object, as \<^verbatim>\<open>if x:\<close> tests it.\<close>

fun py_truthy :: "json \<Rightarrow> bool" where
  "py_truthy JNull = False"
| "py_truthy (JBool b) = b"
| "py_truthy (JInt n) = (n \<noteq> 0)"
| "py_truthy (JStr s) = (s \<noteq> [])"
| "py_truthy (JList xs) = (xs \<noteq> [])"
| "py_truthy (JObj kvs) = (kvs \<noteq> [])"

definition dict_keys :: "(string \<times> json) list \<Rightarrow> string list" where
  "dict_keys kvs = map fst kvs"

definition dict_values :: "(string \<times> json) list \<Rightarrow> json list" where
  "dict_values kvs = map snd kvs"

text \<open>\<^verbatim>\<open>d.get(k, default)\<close>; \<^verbatim>\<open>d.get(k)\<close> is \<^verbatim>\<open>d.get(k, None)\<close>.\<close>

definition dict_get_default :: "(string \<times> json) list \<Rightarrow> string \<Rightarrow> json \<Rightarrow> json" where
  "dict_get_default kvs k dflt = (case map_of kvs k of None \<Rightarrow> dflt | Some v \<Rightarrow> v)"

definition dict_get :: "(string \<times> json) list \<Rightarrow> string \<Rightarrow> json" where
  "dict_get kvs k = dict_get_default kvs k JNull"

section \<open>Exceptions, responses, the world outside the module\<close>

text \<open>
  The exceptions that can leave a function of the module. \<open>ReError\<close> is \<^verbatim>\<open>re.error\<close>,
  \<open>RequestException\<close> is whatever \<^verbatim>\<open>requests.get\<close> raises when no response arrives.
\<close>

datatype py_error = ValueError | AttributeError | TypeError | ReError | RequestException

text \<open>
  What the module reads of a \<^verbatim>\<open>requests\<close> response: the status code, the decoded body
  (\<open>None\<close> when \<^verbatim>\<open>response.json()\<close> raises) and, for each relation of the Link header,
  the URL that \<^verbatim>\<open>response.links[rel]['url']\<close> holds.
\<close>

record response =
  status_code :: int
  json :: "json option"
  links :: "string \<rightharpoonup> string"

text \<open>
  The module's collaborators, which are not part of the repository, are parameters:
  \<^item> \<open>upstream\<close>: the response the remote side gives to a GET of a URL (\<open>None\<close>: the
    call raises). It is a function of the URL: the upstream answers are fixed while the
    properties below are observed.
  \<^item> \<open>re_compile\<close>: \<^verbatim>\<open>re.compile\<close> on a string, \<open>None\<close> when it raises \<^verbatim>\<open>re.error\<close>.
  \<^item> \<open>re_span r s i j\<close>: the compiled pattern \<open>r\<close> can match the characters of the
    subject \<open>s\<close> from position \<open>i\<close> up to position \<open>j\<close>.
  \<^item> \<open>py_str\<close>: the text \<^verbatim>\<open>str.format\<close> and \<^verbatim>\<open>%s\<close> substitute for a value.
\<close>

record 'r env =
  upstream :: "string \<Rightarrow> response option"
  re_compile :: "string \<Rightarrow> 'r option"
  re_span :: "'r \<Rightarrow> string \<Rightarrow> nat \<Rightarrow> nat \<Rightarrow> bool"
  py_str :: "json \<Rightarrow> string"

text \<open>
  \<^verbatim>\<open>Pattern.match\<close> succeeds when some match starts at position 0 of the subject;
  \<^verbatim>\<open>Pattern.search\<close>, which the module does not call, when some match starts anywhere.
\<close>

definition re_match :: "'r env \<Rightarrow> 'r \<Rightarrow> string \<Rightarrow> bool" where
  "re_match E r s = list_ex (\<lambda>j. re_span E r s 0 j) [0 ..< Suc (length s)]"

definition re_search :: "'r env \<Rightarrow> 'r \<Rightarrow> string \<Rightarrow> bool" where
  "re_search E r s =
     list_ex (\<lambda>i. list_ex (\<lambda>j. re_span E r s i j) [i ..< Suc (length s)]) [0 ..< Suc (length s)]"

text \<open>
  The state that outlives a call: the list object bound once, at definition time, to the
  default argument \<^verbatim>\<open>data=[]\<close> of \<^verbatim>\<open>gists_for_user\<close>, and the URLs requested so far
  (oldest first), which records the outbound calls.
\<close>

record world =
  default_data :: "json list"
  requested :: "string list"

definition requests_get :: "'r env \<Rightarrow> string \<Rightarrow> world \<Rightarrow> (py_error + response) \<times> world" where
  "requests_get E url w =
     (case upstream E url of
        None \<Rightarrow> (Inl RequestException, w\<lparr>requested := requested w @ [url]\<rparr>)
      | Some r \<Rightarrow> (Inr r, w\<lparr>requested := requested w @ [url]\<rparr>))"

section \<open>The module\<close>

definition ping :: string where
  "ping = ''pong''"

text \<open>
  \<^verbatim>\<open>get_gist(id)\<close>. The call of \<^verbatim>\<open>requests.get\<close> is outside the \<^verbatim>\<open>try\<close>, so its
  exception leaves the function. Inside the \<^verbatim>\<open>try\<close>, \<^verbatim>\<open>response.json()\<close> may raise and
  so does \<^verbatim>\<open>response_data.keys()\<close> when the decoded body is not a dict; the bare
  \<^verbatim>\<open>except\<close> turns both into \<^verbatim>\<open>False\<close>.
\<close>

definition gist_url :: "'r env \<Rightarrow> json \<Rightarrow> string" where
  "gist_url E gid = ''https://api.github.com/gists/'' @ py_str E gid"

definition get_gist :: "'r env \<Rightarrow> json \<Rightarrow> world \<Rightarrow> (py_error + json) \<times> world" where
  "get_gist E gid w =
     (case requests_get E (gist_url E gid) w of
        (Inl e, w') \<Rightarrow> (Inl e, w')
      | (Inr response, w') \<Rightarrow>
          if status_code response \<in> {403, 404} then (Inr (JBool False), w')
          else
            (case json response of
               None \<Rightarrow> (Inr (JBool False), w')
             | Some (JObj kvs) \<Rightarrow>
                 if ''documentation_url'' \<in> set (dict_keys kvs) \<and> ''message'' \<in> set (dict_keys kvs)
                 then (Inr (JBool False), w')
                 else (Inr (JObj kvs), w')
             | Some _ \<Rightarrow> (Inr (JBool False), w')))"

text \<open>
  \<^verbatim>\<open>gists_for_user(username='', page=1, per_page=1, url=False, data=[])\<close>. No caller
  passes \<^verbatim>\<open>page\<close> or \<^verbatim>\<open>per_page\<close>, so both are 1 in the formatted URL. No caller
  passes a list of its own for \<^verbatim>\<open>data\<close>: \<^verbatim>\<open>search\<close> omits it and the recursive call
  hands on the list it was given, so \<^verbatim>\<open>data\<close> is always the one default list object,
  \<open>default_data\<close> of the world, and \<^verbatim>\<open>data += response_data\<close> extends that object in
  place. \<^verbatim>\<open>return data\<close> yields its content; \<^verbatim>\<open>return []\<close> yields a new empty list and
  leaves the object as it is. The recursive call is inside the \<^verbatim>\<open>try\<close>: an exception
  that leaves it is caught by the bare \<^verbatim>\<open>except\<close> of the caller. The recursion follows
  links the remote side supplies and need not end: no result is \<open>None\<close>.
\<close>

definition gists_url :: "'r env \<Rightarrow> json \<Rightarrow> string option \<Rightarrow> string" where
  "gists_url E username url =
     (case url of
        Some u \<Rightarrow> if u \<noteq> [] then u
                  else ''https://api.github.com/users/'' @ py_str E username @ ''/gists?page=1&per_page=1''
      | None \<Rightarrow> ''https://api.github.com/users/'' @ py_str E username @ ''/gists?page=1&per_page=1'')"

definition catch_all :: "(py_error + json list) \<times> world \<Rightarrow> ((py_error + json list) \<times> world) option" where
  "catch_all rw = (case rw of (Inl e, w) \<Rightarrow> Some (Inr [], w) | (Inr xs, w) \<Rightarrow> Some (Inr xs, w))"

partial_function (option) gists_for_user ::
  "'r env \<Rightarrow> json \<Rightarrow> string option \<Rightarrow> world \<Rightarrow> ((py_error + json list) \<times> world) option" where
  "gists_for_user E username url w =
     (case requests_get E (gists_url E username url) w of
        (Inl e, w1) \<Rightarrow> Some (Inl e, w1)
      | (Inr response, w1) \<Rightarrow>
          if status_code response = 422 then Some (Inr [], w1)
          else
            (case json response of
               None \<Rightarrow> Some (Inr [], w1)
             | Some (JList response_data) \<Rightarrow>
                 (case links response ''next'' of
                    Some next_url \<Rightarrow>
                      Option.bind
                        (gists_for_user E (JStr []) (Some next_url)
                           (w1\<lparr>default_data := default_data w1 @ response_data\<rparr>))
                        catch_all
                  | None \<Rightarrow>
                      Some (Inr (default_data w1 @ response_data),
                            w1\<lparr>default_data := default_data w1 @ response_data\<rparr>))
             | Some _ \<Rightarrow> Some (Inr [], w1)))"

text \<open>
  \<^verbatim>\<open>get_gist_files_content(gist_data)\<close>. \<^verbatim>\<open>item.get('content') + "\n"\<close> is a string
  only when the content is one: \<^verbatim>\<open>None\<close> (the key is absent, or null), a number, a list
  or a dict on the left of \<^verbatim>\<open>+ "\n"\<close> raises \<^verbatim>\<open>TypeError\<close>. A value without the method
  \<^verbatim>\<open>get\<close> or \<^verbatim>\<open>values\<close> raises \<^verbatim>\<open>AttributeError\<close>.
\<close>

fun files_content :: "json list \<Rightarrow> string \<Rightarrow> py_error + string" where
  "files_content [] content = Inr content"
| "files_content (item # files_data) content =
     (case item of
        JObj kvs \<Rightarrow>
          (case dict_get kvs ''content'' of
             JStr s \<Rightarrow> files_content files_data (content @ (s @ [CHR 0x0A]))
           | _ \<Rightarrow> Inl TypeError)
      | _ \<Rightarrow> Inl AttributeError)"

definition get_gist_files_content :: "json \<Rightarrow> py_error + string" where
  "get_gist_files_content gist_data =
     (case gist_data of
        JObj kvs \<Rightarrow>
          if py_truthy (dict_get kvs ''files'')
          then (case dict_get kvs ''files'' of
                  JObj files \<Rightarrow> files_content (dict_values files) []
                | _ \<Rightarrow> Inl AttributeError)
          else Inr []
      | _ \<Rightarrow> Inl AttributeError)"

text \<open>
  \<^verbatim>\<open>search()\<close>. The body of the loop over the listed gists: \<^verbatim>\<open>gist.get('id')\<close>, the
  fetch, and only for a fetched value that is true the compilation of the pattern, the
  aggregation and the test. \<^verbatim>\<open>re.compile\<close> raises \<^verbatim>\<open>TypeError\<close> for a pattern that is
  not a string.
\<close>

definition gist_get_id :: "json \<Rightarrow> py_error + json" where
  "gist_get_id gist = (case gist of JObj kvs \<Rightarrow> Inr (dict_get kvs ''id'') | _ \<Rightarrow> Inl AttributeError)"

definition match_url :: "'r env \<Rightarrow> json \<Rightarrow> json \<Rightarrow> string" where
  "match_url E username gid = ''https://gist.github.com/'' @ py_str E username @ ''/'' @ py_str E gid"

definition compile_pattern :: "'r env \<Rightarrow> json \<Rightarrow> py_error + 'r" where
  "compile_pattern E pattern =
     (case pattern of
        JStr p \<Rightarrow> (case re_compile E p of None \<Rightarrow> Inl ReError | Some r \<Rightarrow> Inr r)
      | _ \<Rightarrow> Inl TypeError)"

fun search_loop ::
  "'r env \<Rightarrow> json \<Rightarrow> json \<Rightarrow> json list \<Rightarrow> string list \<Rightarrow> world \<Rightarrow> (py_error + string list) \<times> world" where
  "search_loop E username pattern [] matches w = (Inr matches, w)"
| "search_loop E username pattern (gist # gists) matches w =
     (case gist_get_id gist of
        Inl e \<Rightarrow> (Inl e, w)
      | Inr gid \<Rightarrow>
          (case get_gist E gid w of
             (Inl e, w') \<Rightarrow> (Inl e, w')
           | (Inr gist_data, w') \<Rightarrow>
               if py_truthy gist_data
               then (case compile_pattern E pattern of
                       Inl e \<Rightarrow> (Inl e, w')
                     | Inr pattern_re \<Rightarrow>
                         (case get_gist_files_content gist_data of
                            Inl e \<Rightarrow> (Inl e, w')
                          | Inr content \<Rightarrow>
                              if re_match E pattern_re content
                              then search_loop E username pattern gists
                                     (matches @ [match_url E username gid]) w'
                              else search_loop E username pattern gists matches w'))
               else search_loop E username pattern gists matches w'))"

text \<open>
  The result dict. \<^verbatim>\<open>list(set(matches))\<close> holds every element of \<^verbatim>\<open>matches\<close> once, in an
  order Python does not specify; \<open>remdups\<close> stands for it, and nothing below depends on
  the order it happens to choose.
\<close>

record search_result =
  status :: string
  username :: json
  pattern :: json
  matches :: "string list"

definition search :: "'r env \<Rightarrow> json \<Rightarrow> world \<Rightarrow> ((py_error + search_result) \<times> world) option" where
  "search E post_data w =
     (case post_data of
        JObj kvs \<Rightarrow>
          if [''username'', ''pattern''] \<noteq> dict_keys kvs then Some (Inl ValueError, w)
          else if dict_get_default kvs ''username'' (JStr []) = JStr []
                  \<or> dict_get_default kvs ''pattern'' (JStr []) = JStr []
          then Some (Inl ValueError, w)
          else
            (case gists_for_user E (dict_get_default kvs ''username'' (JStr [])) None w of
               None \<Rightarrow> None
             | Some (Inl e, w1) \<Rightarrow> Some (Inl e, w1)
             | Some (Inr gists, w1) \<Rightarrow>
                 (case search_loop E (dict_get_default kvs ''username'' (JStr []))
                         (dict_get_default kvs ''pattern'' (JStr [])) gists [] w1 of
                    (Inl e, w2) \<Rightarrow> Some (Inl e, w2)
                  | (Inr ms, w2) \<Rightarrow>
                      Some (Inr \<lparr>status = ''success'',
                                 username = dict_get_default kvs ''username'' (JStr []),
                                 pattern = dict_get_default kvs ''pattern'' (JStr []),
                                 matches = remdups ms\<rparr>, w2)))
      | _ \<Rightarrow> Some (Inl AttributeError, w))"

section \<open>A small instance of the collaborators\<close>

text \<open>
  The concrete examples below need a regular expression library and a formatter to run
  on. This one covers a fragment of the syntax of \<^verbatim>\<open>re\<close>: literal characters, \<^verbatim>\<open>.\<close>
  (any character but a newline), \<^verbatim>\<open>^\<close> (position 0, no \<^verbatim>\<open>MULTILINE\<close> flag), postfix
  \<^verbatim>\<open>*\<close>, \<^verbatim>\<open>|\<close> and groups. As in \<^verbatim>\<open>re\<close>, an unclosed or unopened parenthesis, a
  \<^verbatim>\<open>*\<close> with nothing to repeat and a repeated \<^verbatim>\<open>*\<close> do not compile. The other
  special characters are outside the fragment and are not compiled here; the examples use
  none of them.
\<close>

datatype rx = Emp | Chr char | Dot | Bol | Grp rx | Star rx | Seq rx rx | Alt rx rx

fun star_ends :: "nat \<Rightarrow> (nat \<Rightarrow> nat list) \<Rightarrow> nat list \<Rightarrow> nat list" where
  "star_ends 0 f ps = ps"
| "star_ends (Suc n) f ps =
     (if filter (\<lambda>q. q \<notin> set ps) (concat (map f ps)) = [] then ps
      else star_ends n f (ps @ remdups (filter (\<lambda>q. q \<notin> set ps) (concat (map f ps)))))"

text \<open>The positions at which a match of the expression that starts at \<open>i\<close> can end.\<close>

primrec rx_ends :: "rx \<Rightarrow> string \<Rightarrow> nat \<Rightarrow> nat list" where
  "rx_ends Emp s = (\<lambda>i. [i])"
| "rx_ends (Chr c) s = (\<lambda>i. if i < length s \<and> s ! i = c then [Suc i] else [])"
| "rx_ends Dot s = (\<lambda>i. if i < length s \<and> s ! i \<noteq> CHR 0x0A then [Suc i] else [])"
| "rx_ends Bol s = (\<lambda>i. if i = 0 then [i] else [])"
| "rx_ends (Grp r) s = rx_ends r s"
| "rx_ends (Star r) s = (\<lambda>i. star_ends (Suc (length s)) (rx_ends r s) [i])"
| "rx_ends (Seq r1 r2) s = (\<lambda>i. concat (map (rx_ends r2 s) (rx_ends r1 s i)))"
| "rx_ends (Alt r1 r2) s = (\<lambda>i. rx_ends r1 s i @ rx_ends r2 s i)"

text \<open>
  The parser reads the pattern from left to right with a stack of open groups; of each
  group it holds the alternatives already closed and the items of the current one, both
  latest first.
\<close>

definition mk_seq :: "rx list \<Rightarrow> rx" where
  "mk_seq items = foldl (\<lambda>acc x. Seq x acc) Emp items"

definition mk_alt :: "rx list \<Rightarrow> rx list \<Rightarrow> rx" where
  "mk_alt alts items = foldl (\<lambda>acc a. Alt a acc) (mk_seq items) alts"

fun repeatable :: "rx \<Rightarrow> bool" where
  "repeatable (Star r) = False"
| "repeatable Bol = False"
| "repeatable r = True"

fun rx_parse :: "string \<Rightarrow> (rx list \<times> rx list) list \<Rightarrow> rx option" where
  "rx_parse [] [(alts, items)] = Some (mk_alt alts items)"
| "rx_parse [] stack = None"
| "rx_parse (c # cs) [] = None"
| "rx_parse (c # cs) ((alts, items) # stack) =
     (if c = CHR ''('' then rx_parse cs (([], []) # (alts, items) # stack)
      else if c = CHR '')'' then
        (case stack of
           [] \<Rightarrow> None
         | (alts', items') # stack' \<Rightarrow>
             rx_parse cs ((alts', Grp (mk_alt alts items) # items') # stack'))
      else if c = CHR ''|'' then rx_parse cs ((mk_seq items # alts, []) # stack)
      else if c = CHR ''*'' then
        (case items of
           [] \<Rightarrow> None
         | x # xs \<Rightarrow> if repeatable x then rx_parse cs ((alts, Star x # xs) # stack) else None)
      else if c = CHR ''.'' then rx_parse cs ((alts, Dot # items) # stack)
      else if c = CHR ''^'' then rx_parse cs ((alts, Bol # items) # stack)
      else if c \<in> set ''+?{}[]$'' \<or> c = CHR 0x5C then None
      else rx_parse cs ((alts, Chr c # items) # stack))"

definition ex_compile :: "string \<Rightarrow> rx option" where
  "ex_compile p = rx_parse p [([], [])]"

definition ex_span :: "rx \<Rightarrow> string \<Rightarrow> nat \<Rightarrow> nat \<Rightarrow> bool" where
  "ex_span r s i j = (j \<in> set (rx_ends r s i))"

text \<open>
  The formatter of the examples: a string is substituted as it is, \<^verbatim>\<open>None\<close>,
  \<^verbatim>\<open>True\<close> and \<^verbatim>\<open>False\<close> by their names. The examples format no number, list or
  dict; their text is left empty here.
\<close>

fun ex_str :: "json \<Rightarrow> string" where
  "ex_str (JStr s) = s"
| "ex_str JNull = ''None''"
| "ex_str (JBool b) = (if b then ''True'' else ''False'')"
| "ex_str j = []"

definition ex_env :: "(string \<times> response) list \<Rightarrow> rx env" where
  "ex_env pages =
     \<lparr>upstream = map_of pages, re_compile = ex_compile, re_span = ex_span, py_str = ex_str\<rparr>"

definition ok_response :: "json \<Rightarrow> (string \<times> string) list \<Rightarrow> response" where
  "ok_response body lnks = \<lparr>status_code = 200, json = Some body, links = map_of lnks\<rparr>"

definition world0 :: world where
  "world0 = \<lparr>default_data = [], requested = []\<rparr>"

section \<open>Vocabulary of the properties and example inputs\<close>

fun is_dict :: "json \<Rightarrow> bool" where
  "is_dict (JObj kvs) = True"
| "is_dict j = False"

text \<open>The error envelope of the upstream API: a dict with both keys.\<close>

definition error_envelope :: "json \<Rightarrow> bool" where
  "error_envelope b =
     (case b of
        JObj kvs \<Rightarrow> ''documentation_url'' \<in> set (dict_keys kvs) \<and> ''message'' \<in> set (dict_keys kvs)
      | _ \<Rightarrow> False)"

definition list_body_env :: "rx env" where
  "list_body_env = ex_env [(''https://api.github.com/gists/1'', ok_response (JList []) [])]"

definition envelope_env :: "rx env" where
  "envelope_env = ex_env [(''https://api.github.com/gists/1'',
      ok_response (JObj [(''message'', JStr ''Not Found''),
                         (''documentation_url'', JStr ''https://docs.github.com/rest'')]) [])]"

text \<open>
  Listings. \<open>page_chain E u pages\<close>: the page at \<open>u\<close> and the pages its \<^verbatim>\<open>next\<close>
  links lead to answer with the lists \<open>pages\<close>, in this order, and the last of them
  carries no \<^verbatim>\<open>next\<close> link. The URL requested for a link is the one the recursive
  call computes. \<open>page_fails\<close>: the page answers with status 422, with a body that is
  not a list, or with one that cannot be decoded. \<open>pages_then_failure\<close>: the pages
  \<open>pages\<close> succeed, each with a \<^verbatim>\<open>next\<close> link, and the page after the last one fails.
\<close>

fun page_chain :: "'r env \<Rightarrow> string \<Rightarrow> json list list \<Rightarrow> bool" where
  "page_chain E u [] = False"
| "page_chain E u (p # ps) =
     (case upstream E u of
        None \<Rightarrow> False
      | Some r \<Rightarrow>
          status_code r \<noteq> 422 \<and> json r = Some (JList p)
          \<and> (case links r ''next'' of
                None \<Rightarrow> ps = []
              | Some v \<Rightarrow> ps \<noteq> [] \<and> page_chain E (gists_url E (JStr []) (Some v)) ps))"

definition page_fails :: "'r env \<Rightarrow> string \<Rightarrow> bool" where
  "page_fails E u =
     (case upstream E u of
        None \<Rightarrow> False
      | Some r \<Rightarrow>
          status_code r = 422
          \<or> (case json r of None \<Rightarrow> True | Some (JList xs) \<Rightarrow> False | Some b \<Rightarrow> True))"

fun pages_then_failure :: "'r env \<Rightarrow> string \<Rightarrow> json list list \<Rightarrow> bool" where
  "pages_then_failure E u [] = page_fails E u"
| "pages_then_failure E u (p # ps) =
     (case upstream E u of
        None \<Rightarrow> False
      | Some r \<Rightarrow>
          status_code r \<noteq> 422 \<and> json r = Some (JList p)
          \<and> (case links r ''next'' of
                None \<Rightarrow> False
              | Some v \<Rightarrow> pages_then_failure E (gists_url E (JStr []) (Some v)) ps))"

definition alice_url :: string where
  "alice_url = ''https://api.github.com/users/alice/gists?page=1&per_page=1''"

definition page2_url :: string where
  "page2_url = ''https://api.github.com/user/7/gists?page=2&per_page=1''"

definition page3_url :: string where
  "page3_url = ''https://api.github.com/user/7/gists?page=3&per_page=1''"

definition gist_a :: json where
  "gist_a = JObj [(''id'', JStr ''a1'')]"

definition gist_b :: json where
  "gist_b = JObj [(''id'', JStr ''b2'')]"

definition gist_c :: json where
  "gist_c = JObj [(''id'', JStr ''c3'')]"

definition one_page_env :: "rx env" where
  "one_page_env = ex_env [(alice_url, ok_response (JList [gist_a]) [])]"

definition three_pages_env :: "rx env" where
  "three_pages_env = ex_env
     [(alice_url, ok_response (JList [gist_a]) [(''next'', page2_url)]),
      (page2_url, ok_response (JList [gist_b]) [(''next'', page3_url)]),
      (page3_url, ok_response (JList [gist_c]) [])]"

definition second_page_422_env :: "rx env" where
  "second_page_422_env = ex_env
     [(alice_url, ok_response (JList [gist_a]) [(''next'', page2_url)]),
      (page2_url, \<lparr>status_code = 422, json = Some (JObj [(''message'', JStr ''Validation Failed'')]),
                   links = Map.empty\<rparr>)]"

definition second_page_dict_env :: "rx env" where
  "second_page_dict_env = ex_env
     [(alice_url, ok_response (JList [gist_a]) [(''next'', page2_url)]),
      (page2_url, ok_response (JObj [(''message'', JStr ''Server Error'')]) [])]"

text \<open>
  The orchestrator. \<open>gist_matches E p gid\<close>: the fetch of the gist \<open>gid\<close> returns a
  true value, the pattern \<open>p\<close> compiles, the content is aggregated and
  \<^verbatim>\<open>Pattern.match\<close> succeeds on it. \<open>passed_over\<close>: the fetch of a listed gist returns
  a false value; \<open>fetched_true\<close>: it returns a true one. What a fetch returns does not
  depend on the world it is made in.
\<close>

definition gist_matches :: "'r env \<Rightarrow> json \<Rightarrow> json \<Rightarrow> bool" where
  "gist_matches E p gid =
     (case fst (get_gist E gid world0) of
        Inl e \<Rightarrow> False
      | Inr d \<Rightarrow>
          py_truthy d
          \<and> (case compile_pattern E p of
                Inl e \<Rightarrow> False
              | Inr r \<Rightarrow>
                  (case get_gist_files_content d of Inl e \<Rightarrow> False | Inr c \<Rightarrow> re_match E r c)))"

definition passed_over :: "'r env \<Rightarrow> json \<Rightarrow> bool" where
  "passed_over E gist =
     (case gist_get_id gist of
        Inl e \<Rightarrow> False
      | Inr gid \<Rightarrow> (case fst (get_gist E gid world0) of Inl e \<Rightarrow> False | Inr d \<Rightarrow> \<not> py_truthy d))"

definition fetched_true :: "'r env \<Rightarrow> json \<Rightarrow> bool" where
  "fetched_true E gist =
     (case gist_get_id gist of
        Inl e \<Rightarrow> False
      | Inr gid \<Rightarrow> (case fst (get_gist E gid world0) of Inl e \<Rightarrow> False | Inr d \<Rightarrow> py_truthy d))"

text \<open>Example gists and requests.\<close>

definition file_record :: "string \<Rightarrow> json" where
  "file_record text = JObj [(''files'', JObj [(''notes.txt'', JObj [(''content'', JStr text)])])]"

definition prefix_env :: "rx env" where
  "prefix_env = ex_env
     [(alice_url, ok_response (JList [gist_a, gist_b]) []),
      (''https://api.github.com/gists/a1'', ok_response (file_record ''foo bar'') []),
      (''https://api.github.com/gists/b2'', ok_response (file_record ''a foo'') [])]"

definition foo_request :: json where
  "foo_request = JObj [(''username'', JStr ''alice''), (''pattern'', JStr ''foo'')]"

definition foo_result :: search_result where
  "foo_result = \<lparr>status = ''success'', username = JStr ''alice'', pattern = JStr ''foo'',
                  matches = [''https://gist.github.com/alice/a1'']\<rparr>"

definition foo_rx :: rx where
  "foo_rx = Seq (Chr CHR ''f'') (Seq (Chr CHR ''o'') (Seq (Chr CHR ''o'') Emp))"

definition twice_listed_env :: "rx env" where
  "twice_listed_env = ex_env
     [(alice_url, ok_response (JList [gist_a, gist_a]) []),
      (''https://api.github.com/gists/a1'', ok_response (file_record ''foo bar'') [])]"

definition empty_record_env :: "rx env" where
  "empty_record_env = ex_env
     [(alice_url, ok_response (JList [gist_a, gist_b]) []),
      (''https://api.github.com/gists/a1'', ok_response (JObj []) []),
      (''https://api.github.com/gists/b2'', ok_response (JObj [(''files'', JObj [])]) [])]"

definition star_request :: json where
  "star_request = JObj [(''username'', JStr ''alice''), (''pattern'', JStr ''a*'')]"

definition star_result :: search_result where
  "star_result = \<lparr>status = ''success'', username = JStr ''alice'', pattern = JStr ''a*'',
                   matches = [''https://gist.github.com/alice/b2'']\<rparr>"

definition star_rx :: rx where
  "star_rx = Seq (Star (Chr CHR ''a'')) Emp"

definition paren_request :: json where
  "paren_request = JObj [(''username'', JStr ''alice''), (''pattern'', JStr ''('')]"

definition empty_listing_env :: "rx env" where
  "empty_listing_env = ex_env [(alice_url, ok_response (JList []) [])]"

definition not_found_then_record_env :: "rx env" where
  "not_found_then_record_env = ex_env
     [(alice_url, ok_response (JList [gist_a, gist_b]) []),
      (''https://api.github.com/gists/a1'',
         \<lparr>status_code = 404, json = Some (JObj [(''message'', JStr ''Not Found'')]), links = Map.empty\<rparr>),
      (''https://api.github.com/gists/b2'', ok_response (file_record ''foo bar'') [])]"

section \<open>Properties\<close>

subsection \<open>Auxiliary facts\<close>

lemma requests_get_Inl: "requests_get E u w = (Inl e, w') \<Longrightarrow> e = RequestException"
  by (simp add: requests_get_def split: option.splits)

lemma get_gist_snd: "snd (get_gist E gid w) = w\<lparr>requested := requested w @ [gist_url E gid]\<rparr>"
  by (simp add: get_gist_def requests_get_def split: option.splits json.splits)

lemma get_gist_fst_url:
  "gist_url E gid = gist_url E gid' \<Longrightarrow> fst (get_gist E gid w) = fst (get_gist E gid' v)"
  by (simp add: get_gist_def requests_get_def split: option.splits json.splits)

lemma get_gist_Inl: "get_gist E gid w = (Inl e, w') \<Longrightarrow> e = RequestException"
  by (auto simp add: get_gist_def requests_get_def split: option.splits json.splits if_splits)

lemma files_content_Inl: "files_content items c = Inl e \<Longrightarrow> e = TypeError \<or> e = AttributeError"
  by (induction items arbitrary: c) (auto split: json.splits)

lemma get_gist_files_content_Inl:
  "get_gist_files_content d = Inl e \<Longrightarrow> e = TypeError \<or> e = AttributeError"
  by (auto simp: get_gist_files_content_def split: json.splits if_splits dest: files_content_Inl)

lemma compile_pattern_Inl: "compile_pattern E p = Inl e \<Longrightarrow> e = TypeError \<or> e = ReError"
  by (auto simp: compile_pattern_def split: json.splits option.splits)

lemma gist_get_id_Inl: "gist_get_id g = Inl e \<Longrightarrow> e = AttributeError"
  by (auto simp: gist_get_id_def split: json.splits)

lemma search_loop_no_ValueError:
  "search_loop E u p gists ms w = (Inl e, w') \<Longrightarrow> e \<noteq> ValueError"
proof (induction gists arbitrary: ms w)
  case Nil
  then show ?case by simp
next
  case (Cons g gists)
  then show ?case
    by (auto split: sum.splits prod.splits if_splits
        dest!: gist_get_id_Inl get_gist_Inl compile_pattern_Inl get_gist_files_content_Inl)
qed

text \<open>An exception leaves the lister only from its own first request.\<close>

lemma gists_for_user_Inl: "gists_for_user E u url w = Some (Inl e, w') \<Longrightarrow> e = RequestException"
  by (subst (asm) gists_for_user.simps)
     (auto simp: catch_all_def
        split: sum.splits prod.splits if_splits option.splits json.splits Option.bind_splits
        dest!: requests_get_Inl)

subsection \<open>The fetcher\<close>

text \<open>
  C5, as the code has it. When the remote side answers, \<^verbatim>\<open>get_gist\<close> returns \<^verbatim>\<open>False\<close>
  exactly when the status is 403 or 404, the body cannot be decoded, the decoded body is
  not a dict, or it is a dict with both keys \<^verbatim>\<open>documentation_url\<close> and \<^verbatim>\<open>message\<close>; every
  other decoded body, a dict, is returned unchanged.
\<close>

theorem get_gist_absent_iff:
  assumes "upstream E (gist_url E gid) = Some r"
  shows "(fst (get_gist E gid w) = Inr (JBool False)) =
           (status_code r = 403 \<or> status_code r = 404 \<or> json r = None \<or>
            (\<exists>b. json r = Some b \<and> (\<not> is_dict b \<or> error_envelope b)))
         \<and> (\<forall>b. status_code r \<noteq> 403 \<and> status_code r \<noteq> 404 \<and> json r = Some b \<and> is_dict b
                  \<and> \<not> error_envelope b \<longrightarrow> fst (get_gist E gid w) = Inr b)"
proof -
  have step: "requests_get E (gist_url E gid) w
                = (Inr r, w\<lparr>requested := requested w @ [gist_url E gid]\<rparr>)"
    using assms by (simp add: requests_get_def)
  show ?thesis
  proof (cases "json r")
    case None
    then show ?thesis by (simp add: get_gist_def step)
  next
    case (Some b)
    then show ?thesis
      by (cases b) (auto simp: get_gist_def step error_envelope_def)
  qed
qed

text \<open>The envelope of a gist that does not exist, sent with status 200, is turned into \<^verbatim>\<open>False\<close>.\<close>

theorem get_gist_absent_iff_witness:
  "fst (get_gist envelope_env (JStr ''1'') world0) = Inr (JBool False)"
  using get_gist_absent_iff [of envelope_env "JStr ''1''"
      "ok_response (JObj [(''message'', JStr ''Not Found''),
                          (''documentation_url'', JStr ''https://docs.github.com/rest'')]) []" world0]
  by (simp add: envelope_env_def ex_env_def gist_url_def ok_response_def error_envelope_def
      dict_keys_def)

text \<open>
  C5 as the claim states it fails: a body that decodes to a list, under status 200, is
  neither undecodable nor an error envelope, and the fetcher still returns \<^verbatim>\<open>False\<close>.
\<close>

theorem get_gist_list_body_counterexample:
  "fst (get_gist list_body_env (JStr ''1'') world0) = Inr (JBool False)
   \<and> upstream list_body_env (gist_url list_body_env (JStr ''1'')) = Some (ok_response (JList []) [])
   \<and> status_code (ok_response (JList []) []) = 200
   \<and> json (ok_response (JList []) []) = Some (JList [])"
  by (simp add: get_gist_def requests_get_def list_body_env_def ex_env_def gist_url_def
      ok_response_def)

subsection \<open>The aggregator\<close>

text \<open>
  C8: the claim wants a file entry without \<^verbatim>\<open>content\<close> to contribute the empty string.
  In the code \<^verbatim>\<open>item.get('content')\<close> is then \<^verbatim>\<open>None\<close> and \<^verbatim>\<open>None + "\n"\<close> raises
  \<^verbatim>\<open>TypeError\<close>.
\<close>

theorem get_gist_files_content_absent_content:
  "get_gist_files_content
     (JObj [(''files'', JObj [(''a.txt'', JObj [(''filename'', JStr ''a.txt'')])])])
     = Inl TypeError"
  by (simp add: get_gist_files_content_def dict_get_def dict_get_default_def dict_values_def)

subsection \<open>Validation\<close>

text \<open>
  C4, as the code has it. \<^verbatim>\<open>search\<close> raises \<^verbatim>\<open>ValueError\<close> exactly when the payload is
  a dict whose keys, in their order, are not the list \<^verbatim>\<open>['username', 'pattern']\<close>, or
  whose username or pattern is the empty string; and then the world is as before the
  call: no URL was requested.
\<close>

theorem search_ValueError_iff:
  "(\<exists>w'. search E post_data w = Some (Inl ValueError, w')) =
     (\<exists>kvs. post_data = JObj kvs \<and>
        (dict_keys kvs \<noteq> [''username'', ''pattern'']
         \<or> dict_get_default kvs ''username'' (JStr []) = JStr []
         \<or> dict_get_default kvs ''pattern'' (JStr []) = JStr []))
   \<and> (\<forall>w'. search E post_data w = Some (Inl ValueError, w') \<longrightarrow> w' = w)"
proof (cases post_data)
  case (JObj kvs)
  show ?thesis
  proof (cases "[''username'', ''pattern''] \<noteq> dict_keys kvs
                \<or> dict_get_default kvs ''username'' (JStr []) = JStr []
                \<or> dict_get_default kvs ''pattern'' (JStr []) = JStr []")
    case True
    then have "search E post_data w = Some (Inl ValueError, w)"
      by (auto simp: search_def JObj)
    with True JObj show ?thesis by auto
  next
    case False
    have "search E post_data w \<noteq> Some (Inl ValueError, w')" for w'
      using False
      by (auto simp: search_def JObj split: option.splits sum.splits prod.splits
          dest: gists_for_user_Inl search_loop_no_ValueError)
    with False JObj show ?thesis by auto
  qed
qed (simp_all add: search_def)

theorem search_ValueError_iff_witness:
  "search (ex_env []) (JObj [(''username'', JStr []), (''pattern'', JStr ''a'')]) world0
     = Some (Inl ValueError, world0)"
  using search_ValueError_iff
    [of "ex_env []" "JObj [(''username'', JStr []), (''pattern'', JStr ''a'')]" world0]
  by (auto simp add: dict_keys_def dict_get_default_def)

text \<open>
  C4 as the claim states it fails: a payload with exactly the two keys, the pattern first,
  is rejected.
\<close>

theorem search_reversed_keys_counterexample:
  "search (ex_env []) (JObj [(''pattern'', JStr ''a''), (''username'', JStr ''bob'')]) world0
     = Some (Inl ValueError, world0)
   \<and> set (dict_keys [(''pattern'', JStr ''a''), (''username'', JStr ''bob'')])
       = {''username'', ''pattern''}"
  by (auto simp add: search_def dict_keys_def)

subsection \<open>The lister\<close>

lemma gists_for_user_last_page:
  assumes "upstream E (gists_url E u url) = Some r" "status_code r \<noteq> 422"
    "json r = Some (JList items)" "links r ''next'' = None"
  shows "gists_for_user E u url w =
           Some (Inr (default_data w @ items),
                 w\<lparr>requested := requested w @ [gists_url E u url],
                   default_data := default_data w @ items\<rparr>)"
  using assms by (subst gists_for_user.simps) (simp add: requests_get_def)

lemma gists_for_user_next_page:
  assumes "upstream E (gists_url E u url) = Some r" "status_code r \<noteq> 422"
    "json r = Some (JList items)" "links r ''next'' = Some v"
  shows "gists_for_user E u url w =
           Option.bind
             (gists_for_user E (JStr []) (Some v)
                (w\<lparr>requested := requested w @ [gists_url E u url],
                   default_data := default_data w @ items\<rparr>))
             catch_all"
  using assms by (subst gists_for_user.simps) (simp add: requests_get_def)

lemma gists_for_user_failing_page:
  assumes "page_fails E (gists_url E u url)"
  shows "gists_for_user E u url w
           = Some (Inr [], w\<lparr>requested := requested w @ [gists_url E u url]\<rparr>)"
  using assms
  by (subst gists_for_user.simps)
     (auto simp: requests_get_def page_fails_def split: option.splits json.splits)

lemma gists_for_user_chain:
  "page_chain E (gists_url E u url) pages \<Longrightarrow>
   \<exists>w'. gists_for_user E u url w = Some (Inr (default_data w @ concat pages), w')
        \<and> default_data w' = default_data w @ concat pages
        \<and> length (requested w') = length (requested w) + length pages"
proof (induction pages arbitrary: u url w)
  case Nil
  then show ?case by simp
next
  case (Cons p ps)
  from Cons.prems obtain r where r: "upstream E (gists_url E u url) = Some r"
    "status_code r \<noteq> 422" "json r = Some (JList p)"
    and nxt: "case links r ''next'' of None \<Rightarrow> ps = []
              | Some v \<Rightarrow> ps \<noteq> [] \<and> page_chain E (gists_url E (JStr []) (Some v)) ps"
    by (auto split: option.splits)
  show ?case
  proof (cases "links r ''next''")
    case None
    with nxt have "ps = []" by simp
    with r None show ?thesis by (simp add: gists_for_user_last_page)
  next
    case (Some v)
    with nxt have ch: "page_chain E (gists_url E (JStr []) (Some v)) ps" by simp
    let ?w1 = "w\<lparr>requested := requested w @ [gists_url E u url],
                  default_data := default_data w @ p\<rparr>"
    from Cons.IH [OF ch, of ?w1] obtain w' where
      "gists_for_user E (JStr []) (Some v) ?w1 = Some (Inr (default_data ?w1 @ concat ps), w')"
      "default_data w' = default_data ?w1 @ concat ps"
      "length (requested w') = length (requested ?w1) + length ps"
      by blast
    with r Some show ?thesis
      by (simp add: gists_for_user_next_page catch_all_def)
  qed
qed

lemma gists_for_user_failure:
  "pages_then_failure E (gists_url E u url) pages \<Longrightarrow>
   \<exists>w'. gists_for_user E u url w = Some (Inr [], w')"
proof (induction pages arbitrary: u url w)
  case Nil
  then show ?case by (simp add: gists_for_user_failing_page)
next
  case (Cons p ps)
  from Cons.prems obtain r v where r: "upstream E (gists_url E u url) = Some r"
    "status_code r \<noteq> 422" "json r = Some (JList p)" "links r ''next'' = Some v"
    and ch: "pages_then_failure E (gists_url E (JStr []) (Some v)) ps"
    by (auto split: option.splits)
  let ?w1 = "w\<lparr>requested := requested w @ [gists_url E u url],
                default_data := default_data w @ p\<rparr>"
  from Cons.IH [OF ch, of ?w1] obtain w' where
    "gists_for_user E (JStr []) (Some v) ?w1 = Some (Inr [], w')" by blast
  with r show ?case
    by (simp add: gists_for_user_next_page catch_all_def)
qed

text \<open>
  C6. When the listing of a user is a chain of pages, the top-level call returns: it
  makes one request per page, and its result is the content the default list had before
  the call followed by the items of all pages in the order the pages were retrieved. On
  an empty default list the result is exactly those items.
\<close>

theorem gists_for_user_all_pages:
  assumes "page_chain E (gists_url E user None) pages"
  shows "\<exists>w'. gists_for_user E user None w = Some (Inr (default_data w @ concat pages), w')
              \<and> default_data w' = default_data w @ concat pages
              \<and> length (requested w') = length (requested w) + length pages"
  using assms by (rule gists_for_user_chain)

theorem gists_for_user_all_pages_witness:
  "page_chain three_pages_env (gists_url three_pages_env (JStr ''alice'') None)
     [[gist_a], [gist_b], [gist_c]]
   \<and> (\<exists>w'. gists_for_user three_pages_env (JStr ''alice'') None world0
              = Some (Inr [gist_a, gist_b, gist_c], w')
            \<and> length (requested w') = 3)"
proof -
  have ch: "page_chain three_pages_env (gists_url three_pages_env (JStr ''alice'') None)
              [[gist_a], [gist_b], [gist_c]]"
    by (simp add: three_pages_env_def ex_env_def gists_url_def ok_response_def alice_url_def
        page2_url_def page3_url_def)
  from gists_for_user_all_pages [OF ch, of world0] ch show ?thesis
    by (auto simp: world0_def)
qed

text \<open>
  C7, as the code has it. When the first pages succeed and the page after them fails
  (status 422, a body that is not a list, a body that cannot be decoded), the call
  returns the empty list.
\<close>

theorem gists_for_user_failed_page_empty:
  assumes "pages_then_failure E (gists_url E user None) pages"
  shows "\<exists>w'. gists_for_user E user None w = Some (Inr [], w')"
  using assms by (rule gists_for_user_failure)

theorem gists_for_user_failed_page_empty_witness:
  "pages_then_failure second_page_dict_env (gists_url second_page_dict_env (JStr ''alice'') None)
     [[gist_a]]
   \<and> (\<exists>w'. gists_for_user second_page_dict_env (JStr ''alice'') None world0 = Some (Inr [], w'))"
proof -
  have f: "pages_then_failure second_page_dict_env
             (gists_url second_page_dict_env (JStr ''alice'') None) [[gist_a]]"
    by (simp add: second_page_dict_env_def ex_env_def gists_url_def ok_response_def
        alice_url_def page2_url_def page_fails_def)
  from gists_for_user_failed_page_empty [OF f, of world0] f show ?thesis
    by simp
qed

text \<open>
  C7 as the claim states it fails: the first page succeeds with one item, the second
  answers 422, and the item of the first page is not in the (empty) result.
\<close>

theorem gists_for_user_second_page_422_counterexample:
  "pages_then_failure second_page_422_env (gists_url second_page_422_env (JStr ''alice'') None)
     [[gist_a]]
   \<and> gists_for_user second_page_422_env (JStr ''alice'') None world0
       = Some (Inr [], \<lparr>default_data = [gist_a], requested = [alice_url, page2_url]\<rparr>)"
  by (simp add: gists_for_user.simps second_page_422_env_def ex_env_def gists_url_def
      ok_response_def alice_url_def page2_url_def page_fails_def requests_get_def world0_def
      catch_all_def)

text \<open>
  C3: the claim wants two successive top-level calls against the same upstream answers to
  return the same sequence. The second call starts from the default list the first one
  filled and returns the item twice.
\<close>

theorem gists_for_user_second_call_differs:
  "gists_for_user one_page_env (JStr ''alice'') None world0
     = Some (Inr [gist_a], \<lparr>default_data = [gist_a], requested = [alice_url]\<rparr>)
   \<and> gists_for_user one_page_env (JStr ''alice'') None
         \<lparr>default_data = [gist_a], requested = [alice_url]\<rparr>
     = Some (Inr [gist_a, gist_a],
             \<lparr>default_data = [gist_a, gist_a], requested = [alice_url, alice_url]\<rparr>)"
  by (simp add: gists_for_user.simps one_page_env_def ex_env_def gists_url_def
      ok_response_def alice_url_def requests_get_def world0_def)

subsection \<open>The loop over the listed gists\<close>

text \<open>The definitions the examples unfold.\<close>

lemmas ex_simps =
  ex_env_def ok_response_def world0_def alice_url_def page2_url_def page3_url_def
  gist_a_def gist_b_def gist_c_def requests_get_def gists_url_def gist_url_def catch_all_def
  get_gist_def get_gist_files_content_def gist_get_id_def match_url_def compile_pattern_def
  dict_get_def dict_get_default_def dict_keys_def dict_values_def
  ex_compile_def ex_span_def mk_alt_def mk_seq_def re_match_def re_search_def

lemma get_gist_eq:
  "get_gist E gid w = (fst (get_gist E gid v), w\<lparr>requested := requested w @ [gist_url E gid]\<rparr>)"
  using get_gist_snd [of E gid w] get_gist_fst_url [of E gid gid w v]
  by (metis prod.collapse)

lemma search_loop_set:
  "search_loop E u p gists ms w = (Inr ms', w') \<Longrightarrow>
   set ms' = set ms \<union>
     match_url E u ` {gid. gist_matches E p gid \<and> Inr gid \<in> gist_get_id ` set gists}"
proof (induction gists arbitrary: ms w)
  case Nil
  then show ?case by simp
next
  case (Cons g gists)
  let ?H = "\<lambda>gs. match_url E u ` {gid. gist_matches E p gid \<and> Inr gid \<in> gist_get_id ` set gs}"
  from Cons.prems obtain gid where gid: "gist_get_id g = Inr gid"
    by (auto split: sum.splits)
  let ?w1 = "w\<lparr>requested := requested w @ [gist_url E gid]\<rparr>"
  have gg: "get_gist E gid w = (fst (get_gist E gid world0), ?w1)"
    by (rule get_gist_eq)
  from Cons.prems gid gg obtain d where d: "fst (get_gist E gid world0) = Inr d"
    by (auto split: sum.splits)
  show ?case
  proof (cases "gist_matches E p gid")
    case False
    with Cons.prems gid gg d have "search_loop E u p gists ms ?w1 = (Inr ms', w')"
      by (auto simp: gist_matches_def split: sum.splits if_splits)
    from Cons.IH [OF this] have "set ms' = set ms \<union> ?H gists" .
    moreover have "?H (g # gists) = ?H gists"
      using gid False by auto
    ultimately show ?thesis by simp
  next
    case True
    with Cons.prems gid gg d
    have "search_loop E u p gists (ms @ [match_url E u gid]) ?w1 = (Inr ms', w')"
      by (auto simp: gist_matches_def split: sum.splits if_splits)
    from Cons.IH [OF this] have "set ms' = set (ms @ [match_url E u gid]) \<union> ?H gists" .
    moreover have "?H (g # gists) = insert (match_url E u gid) (?H gists)"
      using gid True by auto
    ultimately show ?thesis by simp
  qed
qed

lemma search_Inr:
  assumes "search E post_data w = Some (Inr res, w')"
  obtains kvs gists w1 ms where "post_data = JObj kvs"
    "dict_keys kvs = [''username'', ''pattern'']"
    "username res = dict_get_default kvs ''username'' (JStr [])"
    "pattern res = dict_get_default kvs ''pattern'' (JStr [])"
    "username res \<noteq> JStr []" "pattern res \<noteq> JStr []"
    "gists_for_user E (username res) None w = Some (Inr gists, w1)"
    "search_loop E (username res) (pattern res) gists [] w1 = (Inr ms, w')"
    "matches res = remdups ms" "status res = ''success''"
  using assms
  by (cases post_data)
     (auto simp: search_def split: if_splits option.splits sum.splits prod.splits)

lemma match_url_inj:
  "match_url E u gid = match_url E u gid' \<Longrightarrow> gist_url E gid = gist_url E gid'"
  by (simp add: match_url_def gist_url_def)

lemma gist_matches_url:
  "gist_url E gid = gist_url E gid' \<Longrightarrow> gist_matches E p gid = gist_matches E p gid'"
  using get_gist_fst_url [of E gid gid' world0 world0] by (simp add: gist_matches_def)

lemma re_match_iff: "re_match E r c = (\<exists>j\<le>length c. re_span E r c 0 j)"
  unfolding re_match_def list_ex_iff set_upt by (auto simp: less_Suc_eq_le)

lemma search_url_recorded_iff:
  assumes "search E post_data w = Some (Inr res, w')"
    and "gists_for_user E (username res) None w = Some (Inr gists, w1)"
    and "g \<in> set gists" and "gist_get_id g = Inr gid"
  shows "(match_url E (username res) gid \<in> set (matches res)) = gist_matches E (pattern res) gid"
proof -
  from assms(1) obtain gists' w1' ms where
    l: "gists_for_user E (username res) None w = Some (Inr gists', w1')"
    and loop: "search_loop E (username res) (pattern res) gists' [] w1' = (Inr ms, w')"
    and m: "matches res = remdups ms"
    by (rule search_Inr)
  from l assms(2) have g': "gists' = gists" by simp
  have "(match_url E (username res) gid \<in> set ms) = gist_matches E (pattern res) gid"
  proof
    assume "match_url E (username res) gid \<in> set ms"
    with search_loop_set [OF loop] obtain gid' where
      u: "match_url E (username res) gid = match_url E (username res) gid'"
      and h: "gist_matches E (pattern res) gid'"
      by auto
    from gist_matches_url [OF match_url_inj [OF u], of "pattern res"] h
    show "gist_matches E (pattern res) gid" by simp
  next
    assume "gist_matches E (pattern res) gid"
    moreover have "Inr gid \<in> gist_get_id ` set gists'"
      using assms(3,4) g' by force
    ultimately show "match_url E (username res) gid \<in> set ms"
      unfolding search_loop_set [OF loop] by blast
  qed
  with m show ?thesis by simp
qed

lemma gist_matches_fetched:
  "fst (get_gist E gid w) = Inr d \<Longrightarrow>
   gist_matches E p gid =
     (py_truthy d \<and> (case compile_pattern E p of
                Inl e \<Rightarrow> False
              | Inr r \<Rightarrow>
                  (case get_gist_files_content d of Inl e \<Rightarrow> False | Inr c \<Rightarrow> re_match E r c)))"
  using get_gist_fst_url [of E gid gid w world0] by (simp add: gist_matches_def)

subsection \<open>The orchestrator: matching\<close>

text \<open>
  C1. Take a request that \<^verbatim>\<open>search\<close> answers and a listed gist that reaches the test: its
  fetch returned a true value, the pattern compiled and the content was aggregated. The
  URL of the gist is among the matches exactly when \<^verbatim>\<open>Pattern.match\<close> succeeds on the
  content, that is, when a match of the pattern starts at position 0 of the content. A
  content with matches further on only is left out.
\<close>

theorem search_records_iff_match:
  assumes "search E post_data w = Some (Inr res, w')"
    and "gists_for_user E (username res) None w = Some (Inr gists, w1)"
    and "g \<in> set gists" and "gist_get_id g = Inr gid"
    and "fst (get_gist E gid w) = Inr d" and "py_truthy d"
    and "compile_pattern E (pattern res) = Inr r"
    and "get_gist_files_content d = Inr c"
  shows "(match_url E (username res) gid \<in> set (matches res)) = re_match E r c
         \<and> re_match E r c = (\<exists>j\<le>length c. re_span E r c 0 j)"
  using search_url_recorded_iff [OF assms(1-4)] gist_matches_fetched [OF assms(5), of "pattern res"]
    assms(6-8)
  by (simp add: re_match_iff)

lemma foo_compiles: "compile_pattern prefix_env (JStr ''foo'') = Inr foo_rx"
  by (simp add: prefix_env_def foo_rx_def ex_simps)

lemma foo_search:
  "search prefix_env foo_request world0
     = Some (Inr foo_result,
             \<lparr>default_data = [gist_a, gist_b],
              requested = [alice_url, ''https://api.github.com/gists/a1'',
                           ''https://api.github.com/gists/b2'']\<rparr>)"
  by (simp add: search_def gists_for_user.simps prefix_env_def foo_request_def foo_result_def
      file_record_def ex_simps)


lemma foo_listing:
  "gists_for_user prefix_env (JStr ''alice'') None world0
     = Some (Inr [gist_a, gist_b], \<lparr>default_data = [gist_a, gist_b], requested = [alice_url]\<rparr>)"
  by (simp add: gists_for_user.simps prefix_env_def ex_simps)

text \<open>
  Pattern \<^verbatim>\<open>foo\<close>: the gist with content \<^verbatim>\<open>foo bar\<close> is recorded; the one with content
  \<^verbatim>\<open>a foo\<close>, which a search anywhere in the string would find, is not.
\<close>

theorem search_records_iff_match_witness:
  "match_url prefix_env (JStr ''alice'') (JStr ''a1'') \<in> set (matches foo_result)
   \<and> re_search prefix_env foo_rx (''a foo'' @ [CHR 0x0A])
   \<and> \<not> re_match prefix_env foo_rx (''a foo'' @ [CHR 0x0A])
   \<and> match_url prefix_env (JStr ''alice'') (JStr ''b2'') \<notin> set (matches foo_result)"
proof -
  have l: "gists_for_user prefix_env (username foo_result) None world0
             = Some (Inr [gist_a, gist_b],
                     \<lparr>default_data = [gist_a, gist_b], requested = [alice_url]\<rparr>)"
    using foo_listing by (simp add: foo_result_def)
  have p: "compile_pattern prefix_env (pattern foo_result) = Inr foo_rx"
    using foo_compiles by (simp add: foo_result_def)
  have a: "(match_url prefix_env (username foo_result) (JStr ''a1'') \<in> set (matches foo_result))
             = re_match prefix_env foo_rx (''foo bar'' @ [CHR 0x0A])"
    by (rule search_records_iff_match [OF foo_search l _ _ _ _ p, of gist_a _ "file_record ''foo bar''",
          THEN conjunct1])
       (simp_all add: prefix_env_def file_record_def ex_simps)
  have b: "(match_url prefix_env (username foo_result) (JStr ''b2'') \<in> set (matches foo_result))
             = re_match prefix_env foo_rx (''a foo'' @ [CHR 0x0A])"
    by (rule search_records_iff_match [OF foo_search l _ _ _ _ p, of gist_b _ "file_record ''a foo''",
          THEN conjunct1])
       (simp_all add: prefix_env_def file_record_def ex_simps)
  have ma: "re_match prefix_env foo_rx (''foo bar'' @ [CHR 0x0A])"
    by (simp add: prefix_env_def foo_rx_def ex_simps)
  have mb: "\<not> re_match prefix_env foo_rx (''a foo'' @ [CHR 0x0A])"
    by (simp add: prefix_env_def foo_rx_def ex_simps)
  have sb: "re_search prefix_env foo_rx (''a foo'' @ [CHR 0x0A])"
    by (simp add: prefix_env_def foo_rx_def ex_simps)
  from a b ma mb sb show ?thesis by (simp add: foo_result_def)
qed

subsection \<open>The orchestrator: deduplication\<close>

text \<open>
  C9. The matches of every answer of \<^verbatim>\<open>search\<close> hold no URL twice, and removing
  duplicates from them once more changes nothing.
\<close>

theorem search_matches_distinct:
  assumes "search E post_data w = Some (Inr res, w')"
  shows "distinct (matches res) \<and> remdups (matches res) = matches res"
proof -
  from assms obtain ms where "matches res = remdups ms" by (rule search_Inr)
  then show ?thesis by simp
qed

lemma twice_listed_search:
  "search twice_listed_env foo_request world0
     = Some (Inr foo_result,
             \<lparr>default_data = [gist_a, gist_a],
              requested = [alice_url, ''https://api.github.com/gists/a1'',
                           ''https://api.github.com/gists/a1'']\<rparr>)"
  by (simp add: search_def gists_for_user.simps twice_listed_env_def foo_request_def foo_result_def
      file_record_def ex_simps)

text \<open>A listing that names the same gist twice: the loop collects its URL twice, the answer holds it once.\<close>

theorem search_matches_distinct_witness:
  "fst (search_loop twice_listed_env (JStr ''alice'') (JStr ''foo'') [gist_a, gist_a] [] world0)
     = Inr [''https://gist.github.com/alice/a1'', ''https://gist.github.com/alice/a1'']
   \<and> matches foo_result = [''https://gist.github.com/alice/a1'']
   \<and> distinct (matches foo_result) \<and> remdups (matches foo_result) = matches foo_result"
  using search_matches_distinct [OF twice_listed_search]
  by (simp add: twice_listed_env_def foo_result_def file_record_def ex_simps)

subsection \<open>The orchestrator: empty records\<close>

lemma files_present_nonempty: "dict_get kvs k = JObj fs \<Longrightarrow> kvs \<noteq> []"
  by (auto simp: dict_get_def dict_get_default_def)

text \<open>
  C10. In an answer of \<^verbatim>\<open>search\<close>, the URL of a listed gist whose fetch returned the
  empty dict is not recorded, whatever the pattern: the empty dict is false, as the
  \<^verbatim>\<open>False\<close> of a failed fetch is. A fetched dict whose \<^verbatim>\<open>files\<close> is an empty dict is
  aggregated to the empty string, and its URL is recorded exactly when the pattern
  matches the empty string.
\<close>

theorem search_empty_record_skipped:
  assumes "search E post_data w = Some (Inr res, w')"
    and "gists_for_user E (username res) None w = Some (Inr gists, w1)"
    and "g \<in> set gists" and "gist_get_id g = Inr gid"
  shows "(fst (get_gist E gid w) = Inr (JObj []) \<longrightarrow>
            match_url E (username res) gid \<notin> set (matches res))
         \<and> (\<forall>kvs r. fst (get_gist E gid w) = Inr (JObj kvs) \<and> dict_get kvs ''files'' = JObj []
                 \<and> compile_pattern E (pattern res) = Inr r \<longrightarrow>
               get_gist_files_content (JObj kvs) = Inr []
               \<and> (match_url E (username res) gid \<in> set (matches res)) = re_span E r [] 0 0)"
proof -
  have skip: "match_url E (username res) gid \<notin> set (matches res)"
    if "fst (get_gist E gid w) = Inr (JObj [])"
    using gist_matches_fetched [OF that, of "pattern res"] search_url_recorded_iff [OF assms]
    by simp
  have hit: "get_gist_files_content (JObj kvs) = Inr []
             \<and> (match_url E (username res) gid \<in> set (matches res)) = re_span E r [] 0 0"
    if f: "fst (get_gist E gid w) = Inr (JObj kvs)" and e: "dict_get kvs ''files'' = JObj []"
      and r: "compile_pattern E (pattern res) = Inr r" for kvs r
  proof -
    have c: "get_gist_files_content (JObj kvs) = Inr []"
      using e by (simp add: get_gist_files_content_def)
    have ne: "kvs \<noteq> []" using e by (rule files_present_nonempty)
    from gist_matches_fetched [OF f, of "pattern res"] search_url_recorded_iff [OF assms] r c ne
    show ?thesis by (simp add: re_match_def)
  qed
  from skip hit show ?thesis by blast
qed


lemma star_search:
  "search empty_record_env star_request world0
     = Some (Inr star_result,
             \<lparr>default_data = [gist_a, gist_b],
              requested = [alice_url, ''https://api.github.com/gists/a1'',
                           ''https://api.github.com/gists/b2'']\<rparr>)"
  by (simp add: search_def gists_for_user.simps empty_record_env_def star_request_def
      star_result_def ex_simps)

lemma star_listing:
  "gists_for_user empty_record_env (username star_result) None world0
     = Some (Inr [gist_a, gist_b], \<lparr>default_data = [gist_a, gist_b], requested = [alice_url]\<rparr>)"
  by (simp add: gists_for_user.simps empty_record_env_def star_result_def ex_simps)

text \<open>Pattern \<^verbatim>\<open>a*\<close>, which matches the empty string.\<close>

theorem search_empty_record_skipped_witness:
  "fst (get_gist empty_record_env (JStr ''a1'') world0) = Inr (JObj [])
   \<and> match_url empty_record_env (JStr ''alice'') (JStr ''a1'') \<notin> set (matches star_result)
   \<and> fst (get_gist empty_record_env (JStr ''b2'') world0) = Inr (JObj [(''files'', JObj [])])
   \<and> re_span empty_record_env star_rx [] 0 0
   \<and> match_url empty_record_env (JStr ''alice'') (JStr ''b2'') \<in> set (matches star_result)"
proof -
  have fa: "fst (get_gist empty_record_env (JStr ''a1'') world0) = Inr (JObj [])"
    by (simp add: empty_record_env_def ex_simps)
  have fb: "fst (get_gist empty_record_env (JStr ''b2'') world0) = Inr (JObj [(''files'', JObj [])])"
    by (simp add: empty_record_env_def ex_simps)
  have p: "compile_pattern empty_record_env (pattern star_result) = Inr star_rx"
    by (simp add: empty_record_env_def star_result_def star_rx_def ex_simps)
  have m: "re_span empty_record_env star_rx [] 0 0"
    by (simp add: empty_record_env_def star_rx_def ex_simps)
  have a: "match_url empty_record_env (username star_result) (JStr ''a1'') \<notin> set (matches star_result)"
    using search_empty_record_skipped [OF star_search star_listing, of gist_a "JStr ''a1''"] fa
    by (simp add: ex_simps)
  have b: "match_url empty_record_env (username star_result) (JStr ''b2'') \<in> set (matches star_result)"
    using search_empty_record_skipped [OF star_search star_listing, of gist_b "JStr ''b2''"] fb p m
    by (simp add: ex_simps)
  from fa fb m a b show ?thesis by (simp add: star_result_def)
qed

subsection \<open>The orchestrator: a pattern that does not compile\<close>

lemma search_loop_passed_over:
  "list_all (passed_over E) gists \<Longrightarrow>
   \<exists>w'. search_loop E u p gists ms w = (Inr ms, w')
        \<and> length (requested w') = length (requested w) + length gists"
proof (induction gists arbitrary: w)
  case Nil
  then show ?case by simp
next
  case (Cons g gists)
  from Cons.prems obtain gid d where gid: "gist_get_id g = Inr gid"
    and d: "fst (get_gist E gid world0) = Inr d" "\<not> py_truthy d"
    by (auto simp: passed_over_def split: sum.splits)
  let ?w1 = "w\<lparr>requested := requested w @ [gist_url E gid]\<rparr>"
  have gg: "get_gist E gid w = (Inr d, ?w1)"
    using get_gist_eq [of E gid w world0] d by simp
  from Cons.prems have "list_all (passed_over E) gists" by simp
  from Cons.IH [OF this, of ?w1] obtain w' where
    "search_loop E u p gists ms ?w1 = (Inr ms, w')"
    "length (requested w') = length (requested ?w1) + length gists"
    by blast
  with gid gg d show ?case by simp
qed

lemma search_loop_compile_error:
  assumes "compile_pattern E p = Inl e" and "fetched_true E g"
  shows "list_all (passed_over E) skipped \<Longrightarrow>
   \<exists>w'. search_loop E u p (skipped @ g # rest) ms w = (Inl e, w')
        \<and> length (requested w') = length (requested w) + length skipped + 1"
proof (induction skipped arbitrary: w)
  case Nil
  from assms(2) obtain gid d where gid: "gist_get_id g = Inr gid"
    and d: "fst (get_gist E gid world0) = Inr d" "py_truthy d"
    by (auto simp: fetched_true_def split: sum.splits)
  let ?w1 = "w\<lparr>requested := requested w @ [gist_url E gid]\<rparr>"
  have gg: "get_gist E gid w = (Inr d, ?w1)"
    using get_gist_eq [of E gid w world0] d by simp
  with gid d assms(1) show ?case by simp
next
  case (Cons s skipped)
  from Cons.prems obtain gid d where gid: "gist_get_id s = Inr gid"
    and d: "fst (get_gist E gid world0) = Inr d" "\<not> py_truthy d"
    by (auto simp: passed_over_def split: sum.splits)
  let ?w1 = "w\<lparr>requested := requested w @ [gist_url E gid]\<rparr>"
  have gg: "get_gist E gid w = (Inr d, ?w1)"
    using get_gist_eq [of E gid w world0] d by simp
  from Cons.prems have "list_all (passed_over E) skipped" by simp
  from Cons.IH [OF this, of ?w1] obtain w' where
    "search_loop E u p (skipped @ g # rest) ms ?w1 = (Inl e, w')"
    "length (requested w') = length (requested ?w1) + length skipped + 1"
    by blast
  with gid gg d show ?case by simp
qed

text \<open>
  C2, as the code has it. The pattern is compiled inside the loop, after the fetch of a
  gist and only when the fetched value is true. So for a request that passes validation
  and whose pattern does not compile: when the fetch of every listed gist returns a false
  value (an empty listing is the first such case), \<^verbatim>\<open>search\<close> answers with success and
  no matches, having requested every listed gist; otherwise it raises \<^verbatim>\<open>re.error\<close>, which
  is not the \<^verbatim>\<open>ValueError\<close> of validation, at the first listed gist whose fetch returns
  a true value, after the requests for that gist and for the ones before it.
\<close>

theorem search_uncompilable_pattern:
  assumes "dict_keys kvs = [''username'', ''pattern'']"
    and "dict_get_default kvs ''username'' (JStr []) = user" and "user \<noteq> JStr []"
    and "dict_get_default kvs ''pattern'' (JStr []) = JStr p" and "p \<noteq> []"
    and "re_compile E p = None"
    and "gists_for_user E user None w = Some (Inr gists, w1)"
  shows "(list_all (passed_over E) gists \<longrightarrow>
            (\<exists>w'. search E (JObj kvs) w
                     = Some (Inr \<lparr>status = ''success'', username = user, pattern = JStr p,
                                  matches = []\<rparr>, w')
                  \<and> length (requested w') = length (requested w1) + length gists))
         \<and> (\<forall>skipped g rest.
               gists = skipped @ g # rest \<and> list_all (passed_over E) skipped \<and> fetched_true E g \<longrightarrow>
               (\<exists>w'. search E (JObj kvs) w = Some (Inl ReError, w')
                     \<and> length (requested w') = length (requested w1) + length skipped + 1))"
proof -
  have c: "compile_pattern E (JStr p) = Inl ReError"
    using assms(6) by (simp add: compile_pattern_def)
  have s: "search E (JObj kvs) w =
             (case search_loop E user (JStr p) gists [] w1 of
                (Inl e, w2) \<Rightarrow> Some (Inl e, w2)
              | (Inr ms, w2) \<Rightarrow>
                  Some (Inr \<lparr>status = ''success'', username = user, pattern = JStr p,
                             matches = remdups ms\<rparr>, w2))"
    using assms(1-5,7) by (auto simp: search_def split: prod.splits sum.splits)
  have a: "\<exists>w'. search E (JObj kvs) w
                     = Some (Inr \<lparr>status = ''success'', username = user, pattern = JStr p,
                                  matches = []\<rparr>, w')
                  \<and> length (requested w') = length (requested w1) + length gists"
    if "list_all (passed_over E) gists"
    using search_loop_passed_over [OF that, of user "JStr p" "[]" w1] s by auto
  have b: "\<exists>w'. search E (JObj kvs) w = Some (Inl ReError, w')
                     \<and> length (requested w') = length (requested w1) + length skipped + 1"
    if "gists = skipped @ g # rest" "list_all (passed_over E) skipped" "fetched_true E g"
    for skipped g rest
    using search_loop_compile_error [OF c that(3) that(2), of user rest "[]" w1] s that(1) by auto
  from a b show ?thesis by blast
qed

text \<open>
  Pattern \<^verbatim>\<open>(\<close>, two listed gists: the first is not found, the second is fetched, and
  only then the error is raised, after three requests.
\<close>

theorem search_uncompilable_pattern_witness:
  "re_compile not_found_then_record_env ''('' = None
   \<and> passed_over not_found_then_record_env gist_a
   \<and> fetched_true not_found_then_record_env gist_b
   \<and> (\<exists>w'. search not_found_then_record_env paren_request world0 = Some (Inl ReError, w')
            \<and> length (requested w') = 3)"
proof -
  have l: "gists_for_user not_found_then_record_env (JStr ''alice'') None world0
             = Some (Inr [gist_a, gist_b],
                     \<lparr>default_data = [gist_a, gist_b], requested = [alice_url]\<rparr>)"
    by (simp add: gists_for_user.simps not_found_then_record_env_def ex_simps)
  have c: "re_compile not_found_then_record_env ''('' = None"
    by (simp add: not_found_then_record_env_def ex_simps)
  have pa: "passed_over not_found_then_record_env gist_a"
    by (simp add: passed_over_def not_found_then_record_env_def ex_simps)
  have fb: "fetched_true not_found_then_record_env gist_b"
    by (simp add: fetched_true_def not_found_then_record_env_def file_record_def ex_simps)
  have k: "dict_keys [(''username'', JStr ''alice''), (''pattern'', JStr ''('')]
             = [''username'', ''pattern'']"
    by (simp add: dict_keys_def)
  have u: "dict_get_default [(''username'', JStr ''alice''), (''pattern'', JStr ''('')]
             ''username'' (JStr []) = JStr ''alice''"
    by (simp add: dict_get_default_def)
  have p: "dict_get_default [(''username'', JStr ''alice''), (''pattern'', JStr ''('')]
             ''pattern'' (JStr []) = JStr ''(''"
    by (simp add: dict_get_default_def)
  have "\<exists>w'. search not_found_then_record_env paren_request world0 = Some (Inl ReError, w')
            \<and> length (requested w') = length [alice_url] + length [gist_a] + 1"
    using search_uncompilable_pattern [OF k u _ p _ c l, THEN conjunct2, rule_format,
        of "[gist_a]" gist_b "[]"] pa fb
    by (simp add: paren_request_def)
  with c pa fb show ?thesis by (simp add: numeral_3_eq_3)
qed

text \<open>
  C2 as the claim states it fails: with the pattern \<^verbatim>\<open>(\<close> and an empty listing the
  request is answered with success.
\<close>

theorem search_uncompilable_pattern_counterexample:
  "re_compile empty_listing_env ''('' = None
   \<and> search empty_listing_env paren_request world0
       = Some (Inr \<lparr>status = ''success'', username = JStr ''alice'', pattern = JStr ''('',
                    matches = []\<rparr>,
               \<lparr>default_data = [], requested = [alice_url]\<rparr>)"
  by (simp add: search_def gists_for_user.simps empty_listing_env_def paren_request_def ex_simps)

end
